theory Spec2Isabelle
  imports Main "HOL-Library.Word" "HOL-Library.AList"
begin

section \<open>Values of the host language\<close>

text \<open>
  A JavaScript string is a sequence of UTF-16 code units; \<open>charCodeAt\<close> reads one of them.
  \<open>js\<close> writes an ASCII literal of the source as such a sequence.
\<close>

type_synonym code_unit = "16 word"
type_synonym jsstring = "code_unit list"

definition js :: "string \<Rightarrow> jsstring" where
  "js s = map of_char s"

text \<open>Truthiness of a string-or-null and of a number-or-null: \<open>null\<close>, \<open>""\<close> and \<open>0\<close> are falsy.\<close>

definition truthy_str :: "jsstring option \<Rightarrow> bool" where
  "truthy_str v = (case v of None \<Rightarrow> False | Some s \<Rightarrow> s \<noteq> [])"

definition truthy_num :: "int option \<Rightarrow> bool" where
  "truthy_num v = (case v of None \<Rightarrow> False | Some n \<Rightarrow> n \<noteq> 0)"

text \<open>\<open>x | 0\<close>: the integer \<open>x\<close> wrapped into the signed 32-bit range.\<close>

definition toInt32 :: "int \<Rightarrow> int" where
  "toInt32 x = (x + 2 ^ 31) mod 2 ^ 32 - 2 ^ 31"

text \<open>\<open>a % b\<close> on integers: the remainder of the truncating division, with the sign of \<open>a\<close>.\<close>

definition js_rem :: "int \<Rightarrow> int \<Rightarrow> int" where
  "js_rem a b = sgn a * (\<bar>a\<bar> mod \<bar>b\<bar>)"

text \<open>
  \<open>Math.round(ms / 1000)\<close> for an integer number of milliseconds: the nearest integer,
  a half rounded towards plus infinity. (The quotient of two clock readings' difference by
  1000 is far from the magnitudes where double precision would move it across a half.)
\<close>

definition Math_round_div1000 :: "int \<Rightarrow> int" where
  "Math_round_div1000 ms = (ms + 500) div 1000"

text \<open>\<open>String(n)\<close> for an integer, and \<open>padStart(2, "0")\<close>.\<close>

fun digitsOf :: "nat \<Rightarrow> jsstring" where
  "digitsOf n =
     (if n < 10 then [of_nat (48 + n)] else digitsOf (n div 10) @ [of_nat (48 + n mod 10)])"

declare digitsOf.simps [simp del]

definition String_of :: "int \<Rightarrow> jsstring" where
  "String_of n = (if n < 0 then js ''-'' @ digitsOf (nat (- n)) else digitsOf (nat n))"

definition padStart2 :: "jsstring \<Rightarrow> jsstring" where
  "padStart2 s = replicate (2 - length s) (of_char CHR ''0'') @ s"

definition startsWith :: "jsstring \<Rightarrow> jsstring \<Rightarrow> bool" where
  "startsWith s p = (take (length p) s = p)"

text \<open>\<open>s.replace(pat, rep)\<close> with a string pattern: the first occurrence only.\<close>

fun replace_first :: "jsstring \<Rightarrow> jsstring \<Rightarrow> jsstring \<Rightarrow> jsstring" where
  "replace_first pat rep [] = (if pat = [] then rep else [])"
| "replace_first pat rep (c # cs) =
     (if startsWith (c # cs) pat then rep @ drop (length pat) (c # cs)
      else c # replace_first pat rep cs)"

text \<open>\<open>s.split(sep)\<close> for a separator of one code unit; \<open>cur\<close> is the piece being read, reversed.\<close>

fun split_from :: "code_unit \<Rightarrow> jsstring \<Rightarrow> jsstring \<Rightarrow> jsstring list" where
  "split_from sep cur [] = [rev cur]"
| "split_from sep cur (c # cs) =
     (if c = sep then rev cur # split_from sep [] cs else split_from sep (c # cur) cs)"

definition split_str :: "code_unit \<Rightarrow> jsstring \<Rightarrow> jsstring list" where
  "split_str sep s = split_from sep [] s"

text \<open>
  \<open>parts[i]\<close> is \<open>undefined\<close> beyond the end of the array, and a template literal prints
  \<open>undefined\<close> as the word.
\<close>

definition at_index :: "jsstring list \<Rightarrow> nat \<Rightarrow> jsstring option" where
  "at_index parts i = (if i < length parts then Some (parts ! i) else None)"

definition template :: "jsstring option \<Rightarrow> jsstring" where
  "template v = (case v of None \<Rightarrow> js ''undefined'' | Some s \<Rightarrow> s)"

section \<open>Constants and data of the service worker\<close>

definition DYNAMIC_RULE_ID_START :: int where
  "DYNAMIC_RULE_ID_START = 1000"

definition USAGE_RETENTION_DAYS :: int where
  "USAGE_RETENTION_DAYS = 7"

record DomainSettings =
  dailyLimitMinutes :: int

text \<open>
  \<open>restrictedDomains\<close> is an object keyed by domain, here in the order of \<open>Object.keys\<close>;
  \<open>None\<close> is a settings object without the field.
\<close>

record Settings =
  restrictedDomains :: "(jsstring \<times> DomainSettings) list option"

type_synonym usage = "jsstring \<rightharpoonup> int"

text \<open>What the extension keeps in \<open>chrome.storage.local\<close>.\<close>

datatype jsval = Null | Num int | Str jsstring | Ledger usage

text \<open>A dynamic rule of \<open>chrome.declarativeNetRequest\<close>.\<close>

record rule =
  ruleId :: int
  priority :: int
  actionType :: jsstring
  urlFilter :: jsstring
  resourceTypes :: "jsstring list"

text \<open>
  The globals of the worker (\<open>settings\<close>, \<open>todayUsage\<close>, \<open>activeDomain\<close>,
  \<open>activeStart\<close>) and the three stores of the browser it reads and writes.
\<close>

record state =
  settings :: Settings
  todayUsage :: usage
  activeDomain :: "jsstring option"
  activeStart :: "int option"
  storageSync :: "Settings option"
  storageLocal :: "(jsstring \<times> jsval) list"
  dynamicRules :: "rule list"

text \<open>The fields of a \<open>Date\<close> in local time, as \<open>getFullYear\<close>, \<open>getMonth\<close> (from 0) and \<open>getDate\<close> give them.\<close>

record date =
  getFullYear :: int
  getMonth :: int
  getDate :: int

text \<open>The result of \<open>new URL(url)\<close>; the constructor throws where the parser is \<open>None\<close>.\<close>

record URL =
  protocol :: jsstring
  hostname :: jsstring

section \<open>Helpers\<close>

text \<open>\<open>hostname.replace(/^www\./, "")\<close>\<close>

definition strip_www :: "jsstring \<Rightarrow> jsstring" where
  "strip_www h = (if startsWith h (js ''www.'') then drop 4 h else h)"

definition getDomain :: "(jsstring \<Rightarrow> URL option) \<Rightarrow> jsstring \<Rightarrow> jsstring option" where
  "getDomain parseURL url =
     (case parseURL url of
        None \<Rightarrow> None
      | Some u \<Rightarrow> Some (strip_www (hostname u)))"

text \<open>\<open>localDate now\<close> is \<open>new Date()\<close> at the instant \<open>now\<close> (milliseconds), in the host's time zone.\<close>

definition todayKey :: "(int \<Rightarrow> date) \<Rightarrow> int \<Rightarrow> jsstring" where
  "todayKey localDate now =
     (let d = localDate now;
          yyyy = getFullYear d;
          mm = padStart2 (String_of (getMonth d + 1));
          dd = padStart2 (String_of (getDate d))
      in js ''usage_'' @ String_of yyyy @ js ''_'' @ mm @ js ''_'' @ dd)"

definition getTrackedDomains :: "state \<Rightarrow> jsstring list" where
  "getTrackedDomains s =
     (case restrictedDomains (settings s) of None \<Rightarrow> [] | Some al \<Rightarrow> map fst al)"

datatype limit = Finite int | Infinity

definition getLimitSeconds :: "state \<Rightarrow> jsstring \<Rightarrow> limit" where
  "getLimitSeconds s domain =
     (case restrictedDomains (settings s) of
        None \<Rightarrow> Infinity
      | Some al \<Rightarrow>
          (case map_of al domain of
             None \<Rightarrow> Infinity
           | Some entry \<Rightarrow> Finite (dailyLimitMinutes entry * 60)))"

text \<open>\<open>seconds >= limit\<close>\<close>

definition reaches :: "int \<Rightarrow> limit \<Rightarrow> bool" where
  "reaches seconds l = (case l of Finite n \<Rightarrow> n \<le> seconds | Infinity \<Rightarrow> False)"

text \<open>\<open>todayUsage[domain] || 0\<close>\<close>

definition usageOf :: "state \<Rightarrow> jsstring \<Rightarrow> int" where
  "usageOf s domain = (case todayUsage s domain of None \<Rightarrow> 0 | Some v \<Rightarrow> v)"

section \<open>The stores of the browser\<close>

definition storage_set :: "(jsstring \<times> jsval) list \<Rightarrow> (jsstring \<times> jsval) list \<Rightarrow> (jsstring \<times> jsval) list" where
  "storage_set items al = fold (\<lambda>(k, v). AList.update k v) items al"

definition storage_remove :: "jsstring list \<Rightarrow> (jsstring \<times> jsval) list \<Rightarrow> (jsstring \<times> jsval) list" where
  "storage_remove keys al = filter (\<lambda>(k, v). k \<notin> set keys) al"

text \<open>
  \<open>updateDynamicRules({removeRuleIds, addRules})\<close>: the rules with the listed ids are removed,
  then the new rules are added.
\<close>

definition updateDynamicRules :: "int list \<Rightarrow> rule list \<Rightarrow> rule list \<Rightarrow> rule list" where
  "updateDynamicRules removeRuleIds addRules table =
     filter (\<lambda>r. ruleId r \<notin> set removeRuleIds) table @ addRules"

section \<open>Hydration\<close>

text \<open>
  \<open>persistUsage\<close> is the only writer of the three items read here: the item under the key of
  a day is a ledger, \<open>activeDomain\<close> a string or \<open>null\<close>, \<open>activeStart\<close> a number or
  \<open>null\<close>. An absent item reads as \<open>undefined\<close>, and \<open>||\<close> replaces every falsy value.
\<close>

definition ensureInit :: "(int \<Rightarrow> date) \<Rightarrow> int \<Rightarrow> state \<Rightarrow> state" where
  "ensureInit localDate now s =
     (let settings' =
            (case storageSync s of
               None \<Rightarrow> settings s
             | Some st \<Rightarrow> if restrictedDomains st \<noteq> None then st else settings s);
          key = todayKey localDate now;
          localData = map_of (storageLocal s)
      in s\<lparr> settings := settings',
            todayUsage := (case localData key of Some (Ledger u) \<Rightarrow> u | _ \<Rightarrow> Map.empty),
            activeDomain :=
              (case localData (js ''activeDomain'') of
                 Some (Str d) \<Rightarrow> if d \<noteq> [] then Some d else None
               | _ \<Rightarrow> None),
            activeStart :=
              (case localData (js ''activeStart'') of
                 Some (Num t) \<Rightarrow> if t \<noteq> 0 then Some t else None
               | _ \<Rightarrow> None) \<rparr>)"

section \<open>Usage and timers\<close>

text \<open>\<open>now\<close> is the reading of \<open>Date.now()\<close> during the call.\<close>

definition flushActiveTimer :: "int \<Rightarrow> state \<Rightarrow> state" where
  "flushActiveTimer now s =
     (if truthy_str (activeDomain s) \<and> truthy_num (activeStart s) then
        (let elapsed = Math_round_div1000 (now - the (activeStart s)) in
         if elapsed > 0 then
           s\<lparr> todayUsage := (todayUsage s)(the (activeDomain s) \<mapsto> usageOf s (the (activeDomain s)) + elapsed),
              activeStart := Some now \<rparr>
         else s)
      else s)"

definition persistUsage :: "(int \<Rightarrow> date) \<Rightarrow> int \<Rightarrow> state \<Rightarrow> state" where
  "persistUsage localDate now s =
     (let s1 = flushActiveTimer now s;
          key = todayKey localDate now
      in s1\<lparr> storageLocal :=
               storage_set
                 [(key, Ledger (todayUsage s1)),
                  (js ''activeDomain'', case activeDomain s1 of None \<Rightarrow> Null | Some d \<Rightarrow> Str d),
                  (js ''activeStart'', case activeStart s1 of None \<Rightarrow> Null | Some t \<Rightarrow> Num t)]
                 (storageLocal s1) \<rparr>)"

text \<open>
  The body of the loop of \<open>cleanupOldUsage\<close>: whether \<open>key\<close> is pushed on \<open>keysToRemove\<close>.
  \<open>parseDate str\<close> is the time value of \<open>new Date(str)\<close>, \<open>None\<close> for an invalid date, with
  which every comparison is false.
\<close>

definition keyIsOld :: "(jsstring \<Rightarrow> int option) \<Rightarrow> int \<Rightarrow> jsstring \<Rightarrow> bool" where
  "keyIsOld parseDate cutoff key =
     (if \<not> startsWith key (js ''usage_'') then False
      else
        (let parts = split_str (of_char CHR ''_'') (replace_first (js ''usage_'') [] key) in
         if length parts \<noteq> 3 then False
         else
           (case parseDate (template (at_index parts 1) @ js ''-'' @ template (at_index parts 2)
                              @ js ''-'' @ template (at_index parts 3)) of
              None \<Rightarrow> False
            | Some d \<Rightarrow> d < cutoff)))"

text \<open>
  \<open>daysBack t n\<close> is the time value of the \<open>Date\<close> of time value \<open>t\<close> after
  \<open>setDate(getDate() - n)\<close>.
\<close>

definition cleanupOldUsage ::
  "(jsstring \<Rightarrow> int option) \<Rightarrow> (int \<Rightarrow> int \<Rightarrow> int) \<Rightarrow> int \<Rightarrow> state \<Rightarrow> state" where
  "cleanupOldUsage parseDate daysBack now s =
     (let cutoff = daysBack now USAGE_RETENTION_DAYS;
          keysToRemove = filter (keyIsOld parseDate cutoff) (map fst (storageLocal s))
      in if length keysToRemove > 0
         then s\<lparr> storageLocal := storage_remove keysToRemove (storageLocal s) \<rparr>
         else s)"

section \<open>Limit enforcement and rules\<close>

text \<open>
  The loop of \<open>ruleIdFor\<close>. \<open>hash\<close> is a signed 32-bit integer, so \<open>hash * 31\<close> plus a code
  unit is computed exactly before \<open>| 0\<close> wraps it.
\<close>

fun hashLoop :: "int \<Rightarrow> jsstring \<Rightarrow> int" where
  "hashLoop hash [] = hash"
| "hashLoop hash (c # cs) = hashLoop (toInt32 (hash * 31 + uint c)) cs"

definition ruleIdFor :: "jsstring \<Rightarrow> int" where
  "ruleIdFor domain = DYNAMIC_RULE_ID_START + \<bar>js_rem (hashLoop 0 domain) 10000\<bar>"

definition blockRule :: "jsstring \<Rightarrow> rule" where
  "blockRule domain =
     \<lparr> ruleId = ruleIdFor domain,
       priority = 1,
       actionType = js ''block'',
       urlFilter = js ''||'' @ domain,
       resourceTypes = [js ''main_frame'', js ''sub_frame''] \<rparr>"

definition addDynamicBlockRule :: "jsstring \<Rightarrow> state \<Rightarrow> state" where
  "addDynamicBlockRule domain s =
     s\<lparr> dynamicRules := updateDynamicRules [ruleIdFor domain] [blockRule domain] (dynamicRules s) \<rparr>"

definition removeDynamicBlockRule :: "jsstring \<Rightarrow> state \<Rightarrow> state" where
  "removeDynamicBlockRule domain s =
     s\<lparr> dynamicRules := updateDynamicRules [ruleIdFor domain] [] (dynamicRules s) \<rparr>"

definition removeAllDynamicBlockRules :: "state \<Rightarrow> state" where
  "removeAllDynamicBlockRules s =
     (let existing = dynamicRules s
      in if length existing > 0
         then s\<lparr> dynamicRules := updateDynamicRules (map ruleId existing) [] (dynamicRules s) \<rparr>
         else s)"

definition checkLimits :: "state \<Rightarrow> state" where
  "checkLimits s =
     fold (\<lambda>domain st.
             if reaches (usageOf st domain) (getLimitSeconds st domain)
             then addDynamicBlockRule domain st else st)
          (getTrackedDomains s) s"

definition setActiveDomain :: "(int \<Rightarrow> date) \<Rightarrow> int \<Rightarrow> jsstring option \<Rightarrow> state \<Rightarrow> state" where
  "setActiveDomain localDate now domain s =
     (let s1 = flushActiveTimer now s;
          tracked = getTrackedDomains s1;
          s2 = (if truthy_str domain \<and> the domain \<in> set tracked
                then s1\<lparr> activeDomain := domain, activeStart := Some now \<rparr>
                else s1\<lparr> activeDomain := None, activeStart := None \<rparr>)
      in checkLimits (persistUsage localDate now s2))"

section \<open>Listeners\<close>

text \<open>An entry of the \<open>changes\<close> object of \<open>chrome.storage.onChanged\<close>.\<close>

record storage_change =
  oldValue :: "Settings option"
  newValue :: "Settings option"

text \<open>
  \<open>chrome.storage.onChanged\<close>: \<open>change\<close> is \<open>changes.settings\<close>, \<open>None\<close> when the change
  is of another item.
\<close>

definition onStorageChanged ::
  "(int \<Rightarrow> date) \<Rightarrow> int \<Rightarrow> storage_change option \<Rightarrow> jsstring \<Rightarrow> state \<Rightarrow> state" where
  "onStorageChanged localDate now change areaName s =
     (if areaName = js ''sync'' \<and> change \<noteq> None then
        (let s1 = ensureInit localDate now s in
         case newValue (the change) of
           None \<Rightarrow> s1
         | Some newSettings \<Rightarrow>
             (let oldDomains = getTrackedDomains s1;
                  s2 = s1\<lparr> settings := newSettings \<rparr>;
                  newDomains = getTrackedDomains s2;
                  s3 = fold (\<lambda>domain st.
                               if domain \<notin> set newDomains then removeDynamicBlockRule domain st
                               else st)
                            oldDomains s2
              in checkLimits s3))
      else s)"

text \<open>\<open>chrome.alarms.onAlarm\<close> for the alarm \<open>persist-timer\<close>.\<close>

definition onAlarm :: "(int \<Rightarrow> date) \<Rightarrow> int \<Rightarrow> state \<Rightarrow> state" where
  "onAlarm localDate now s = checkLimits (persistUsage localDate now (ensureInit localDate now s))"

text \<open>\<open>chrome.runtime.onStartup\<close>, and \<open>chrome.runtime.onInstalled\<close> up to the creation of the alarm.\<close>

definition onStartup ::
  "(int \<Rightarrow> date) \<Rightarrow> (jsstring \<Rightarrow> int option) \<Rightarrow> (int \<Rightarrow> int \<Rightarrow> int) \<Rightarrow> int \<Rightarrow> state \<Rightarrow> state" where
  "onStartup localDate parseDate daysBack now s =
     checkLimits
       (removeAllDynamicBlockRules
          (cleanupOldUsage parseDate daysBack now (ensureInit localDate now s)))"

section \<open>Auxiliary notions and example states\<close>

text \<open>The tracked domains whose usage has reached their limit, and what reconciliation does to the table for one of them.\<close>

definition overLimit :: "state \<Rightarrow> jsstring list" where
  "overLimit s = filter (\<lambda>d. reaches (usageOf s d) (getLimitSeconds s d)) (getTrackedDomains s)"

definition replaceRule :: "jsstring \<Rightarrow> rule list \<Rightarrow> rule list" where
  "replaceRule d table = updateDynamicRules [ruleIdFor d] [blockRule d] table"

text \<open>
  A sequence of calls of \<open>setActiveDomain\<close>, each with the reading of the clock at which it
  runs.
\<close>

type_synonym call = "int \<times> jsstring option"

fun calls :: "(int \<Rightarrow> date) \<Rightarrow> call list \<Rightarrow> state \<Rightarrow> state" where
  "calls localDate [] s = s"
| "calls localDate ((now, domain) # cs) s =
     calls localDate cs (setActiveDomain localDate now domain s)"

text \<open>
  The reference for the ledger, in the words of the specification, against which the code
  is compared. A call makes its domain the active one if it is non-null (and not the empty
  string) and tracked, and no domain otherwise; \<open>spec_dwell tracked active since cs d\<close>
  adds up, in milliseconds, the intervals between consecutive calls during which \<open>d\<close> is
  the active domain, \<open>active\<close> being the active domain since the instant \<open>since\<close>.
\<close>

definition spec_activeAfter :: "jsstring list \<Rightarrow> jsstring option \<Rightarrow> jsstring option" where
  "spec_activeAfter tracked domain =
     (if truthy_str domain \<and> the domain \<in> set tracked then domain else None)"

fun spec_dwell :: "jsstring list \<Rightarrow> jsstring option \<Rightarrow> int \<Rightarrow> call list \<Rightarrow> jsstring \<Rightarrow> int" where
  "spec_dwell tracked active since [] d = 0"
| "spec_dwell tracked active since ((now, domain) # cs) d =
     (if active = Some d then now - since else 0)
       + spec_dwell tracked (spec_activeAfter tracked domain) now cs d"

text \<open>
  The same sum with each interval rounded to the nearest second, which is the unit of the
  ledger.
\<close>

fun spec_dwell_rounded ::
  "jsstring list \<Rightarrow> jsstring option \<Rightarrow> int \<Rightarrow> call list \<Rightarrow> jsstring \<Rightarrow> int" where
  "spec_dwell_rounded tracked active since [] d = 0"
| "spec_dwell_rounded tracked active since ((now, domain) # cs) d =
     (if active = Some d then Math_round_div1000 (now - since) else 0)
       + spec_dwell_rounded tracked (spec_activeAfter tracked domain) now cs d"

text \<open>
  A running timer as \<open>setActiveDomain\<close> leaves it: a non-empty domain, started at the
  non-zero instant \<open>since\<close>.
\<close>

definition timerRunning :: "int \<Rightarrow> state \<Rightarrow> bool" where
  "timerRunning since s =
     (case activeDomain s of
        None \<Rightarrow> True
      | Some a \<Rightarrow> a \<noteq> [] \<and> activeStart s = Some since \<and> since \<noteq> 0)"

text \<open>
  The calendar of a host whose time zone is UTC: the civil date of an instant given in
  milliseconds since 1 January 1970.
\<close>

definition utcDate :: "int \<Rightarrow> date" where
  "utcDate t =
     (let z = t div 86400000 + 719468;
          era = z div 146097;
          doe = z mod 146097;
          yoe = (doe - doe div 1460 + doe div 36524 - doe div 146096) div 365;
          doy = doe - (365 * yoe + yoe div 4 - yoe div 100);
          mp = (5 * doy + 2) div 153;
          d = doy - (153 * mp + 2) div 5 + 1;
          m = (if mp < 10 then mp + 3 else mp - 9);
          y = yoe + era * 400 + (if m \<le> 2 then 1 else 0)
      in \<lparr> getFullYear = y, getMonth = m - 1, getDate = d \<rparr>)"

text \<open>The globals as the script declares them, with empty stores.\<close>

definition initialState :: state where
  "initialState =
     \<lparr> settings = \<lparr> restrictedDomains = Some [] \<rparr>,
       todayUsage = Map.empty,
       activeDomain = None,
       activeStart = None,
       storageSync = None,
       storageLocal = [],
       dynamicRules = [] \<rparr>"

definition exampleSettings :: Settings where
  "exampleSettings =
     \<lparr> restrictedDomains =
         Some [(js ''youtube.com'', \<lparr> dailyLimitMinutes = 30 \<rparr>),
               (js ''reddit.com'', \<lparr> dailyLimitMinutes = 20 \<rparr>)] \<rparr>"

text \<open>
  A ledger with an entry for a domain that the settings do not list, and with
  \<open>youtube.com\<close> at its limit of 30 minutes.
\<close>

definition orphanState :: state where
  "orphanState =
     initialState \<lparr> settings := exampleSettings,
                    todayUsage := [js ''instagram.com'' \<mapsto> 99999, js ''youtube.com'' \<mapsto> 1800] \<rparr>"

definition runningTimer :: state where
  "runningTimer =
     initialState \<lparr> settings := exampleSettings,
                    activeDomain := Some (js ''youtube.com''),
                    activeStart := Some 1793577601000 \<rparr>"

text \<open>
  Five calls for \<open>youtube.com\<close>, 1.4 seconds apart, from 00:00:01 on 2 November 2026 (UTC);
  four calls a whole number of seconds apart; and four calls 1.4, 3.5 and 0.3 seconds apart.
\<close>

definition everySecondAndAHalf :: "call list" where
  "everySecondAndAHalf =
     [(1793577601000, Some (js ''youtube.com'')),
      (1793577602400, Some (js ''youtube.com'')),
      (1793577603800, Some (js ''youtube.com'')),
      (1793577605200, Some (js ''youtube.com'')),
      (1793577606600, None)]"

definition unevenCalls :: "call list" where
  "unevenCalls =
     [(1793577601000, Some (js ''youtube.com'')),
      (1793577602400, Some (js ''reddit.com'')),
      (1793577605900, Some (js ''youtube.com'')),
      (1793577606200, None)]"

definition wholeSeconds :: "call list" where
  "wholeSeconds =
     [(1793577601250, Some (js ''youtube.com'')),
      (1793577603250, Some (js ''reddit.com'')),
      (1793577608250, Some (js ''youtube.com'')),
      (1793577612250, None)]"

text \<open>
  Storage as \<open>persistUsage\<close> wrote it at 23:00 on 1 November 2026 (UTC), with a timer
  running for \<open>reddit.com\<close>.
\<close>

definition staleTimer :: state where
  "staleTimer =
     initialState \<lparr> settings := exampleSettings,
       storageLocal := [(js ''usage_2026_11_01'', Ledger [js ''reddit.com'' \<mapsto> 600]),
                        (js ''activeDomain'', Str (js ''reddit.com'')),
                        (js ''activeStart'', Num 1793574000000)] \<rparr>"

text \<open>The end of 1 November 2026: \<open>youtube.com\<close> has used its 30 minutes and is blocked.\<close>

definition blockedYesterday :: state where
  "blockedYesterday =
     initialState \<lparr> settings := exampleSettings,
       todayUsage := [js ''youtube.com'' \<mapsto> 1800],
       storageSync := Some exampleSettings,
       storageLocal := [(js ''usage_2026_11_01'', Ledger [js ''youtube.com'' \<mapsto> 1800]),
                        (js ''activeDomain'', Null), (js ''activeStart'', Null)],
       dynamicRules := [blockRule (js ''youtube.com'')] \<rparr>"

text \<open>
  The user has just deleted \<open>instagram.com\<close>, blocked after its 15 minutes, from the
  settings: the worker still holds the old settings, the synced store the new ones.
\<close>

definition instagramRemoved :: state where
  "instagramRemoved =
     initialState \<lparr>
       settings := \<lparr> restrictedDomains =
         Some [(js ''instagram.com'', \<lparr> dailyLimitMinutes = 15 \<rparr>),
               (js ''youtube.com'', \<lparr> dailyLimitMinutes = 30 \<rparr>)] \<rparr>,
       todayUsage := [js ''instagram.com'' \<mapsto> 900],
       storageSync := Some \<lparr> restrictedDomains =
         Some [(js ''youtube.com'', \<lparr> dailyLimitMinutes = 30 \<rparr>)] \<rparr>,
       storageLocal := [(js ''usage_2026_11_02'', Ledger [js ''instagram.com'' \<mapsto> 900]),
                        (js ''activeDomain'', Null), (js ''activeStart'', Null)],
       dynamicRules := [blockRule (js ''instagram.com'')] \<rparr>"

definition instagramChange :: storage_change where
  "instagramChange =
     \<lparr> oldValue = Some \<lparr> restrictedDomains =
         Some [(js ''instagram.com'', \<lparr> dailyLimitMinutes = 15 \<rparr>),
               (js ''youtube.com'', \<lparr> dailyLimitMinutes = 30 \<rparr>)] \<rparr>,
       newValue = Some \<lparr> restrictedDomains =
         Some [(js ''youtube.com'', \<lparr> dailyLimitMinutes = 30 \<rparr>)] \<rparr> \<rparr>"

text \<open>Two ledgers in local storage, of 1 November 2020 and of 1 November 2026.\<close>

definition twoLedgers :: state where
  "twoLedgers =
     initialState \<lparr> storageLocal :=
       [(js ''usage_2020_11_01'', Ledger Map.empty),
        (js ''usage_2026_11_01'', Ledger Map.empty)] \<rparr>"

section \<open>Rule identifiers\<close>

lemma js_rem_bound: "0 < b \<Longrightarrow> \<bar>js_rem a b\<bar> < b"
  by (simp add: js_rem_def abs_mult abs_sgn_eq)

text \<open>
  C8. \<open>ruleIdFor\<close> reads nothing but its argument: for every string its result lies in the
  reserved range from 1000 to 10999; whatever the state of the worker and of the stores, the
  rule written for a domain is the same rule, with the id \<open>ruleIdFor\<close> gives the domain; and
  the id differs from every id of a set of static rule ids that lies outside that range
  (the static rules are not part of the script and are a parameter here).
\<close>

theorem ruleIdFor_range:
  "1000 \<le> ruleIdFor domain \<and> ruleIdFor domain \<le> 10999 \<and>
   last (dynamicRules (addDynamicBlockRule domain s)) = blockRule domain \<and>
   ruleId (blockRule domain) = ruleIdFor domain \<and>
   ((\<forall>i \<in> staticIds. i < DYNAMIC_RULE_ID_START \<or> 10999 < i) \<longrightarrow> ruleIdFor domain \<notin> staticIds)"
proof -
  have r: "1000 \<le> ruleIdFor domain \<and> ruleIdFor domain \<le> 10999"
    using js_rem_bound [of 10000 "hashLoop 0 domain"]
    by (simp add: ruleIdFor_def DYNAMIC_RULE_ID_START_def)
  have w: "last (dynamicRules (addDynamicBlockRule domain s)) = blockRule domain"
    by (simp add: addDynamicBlockRule_def updateDynamicRules_def)
  have i: "ruleId (blockRule domain) = ruleIdFor domain"
    by (simp add: blockRule_def)
  have d: "(\<forall>i \<in> staticIds. i < DYNAMIC_RULE_ID_START \<or> 10999 < i) \<longrightarrow>
             ruleIdFor domain \<notin> staticIds"
    using r by (auto simp: DYNAMIC_RULE_ID_START_def)
  show ?thesis
    using r w i d by blast
qed

theorem ruleIdFor_range_witness:
  "1000 \<le> ruleIdFor (js ''youtube.com'') \<and> ruleIdFor (js ''youtube.com'') \<le> 10999 \<and>
   ruleIdFor (js ''youtube.com'') \<notin> {1, 2, 3}"
  using ruleIdFor_range [of "js ''youtube.com''" initialState "{1, 2, 3}"]
  by (simp add: DYNAMIC_RULE_ID_START_def)

section \<open>Reconciliation\<close>

lemma usageOf_rules [simp]: "usageOf (s\<lparr>dynamicRules := r\<rparr>) = usageOf s"
  by (simp add: usageOf_def fun_eq_iff)

lemma getLimitSeconds_rules [simp]:
  "getLimitSeconds (s\<lparr>dynamicRules := r\<rparr>) = getLimitSeconds s"
  by (simp add: getLimitSeconds_def fun_eq_iff)

lemma getTrackedDomains_rules [simp]:
  "getTrackedDomains (s\<lparr>dynamicRules := r\<rparr>) = getTrackedDomains s"
  by (simp add: getTrackedDomains_def)

lemma getLimitSeconds_usage [simp]:
  "getLimitSeconds (s\<lparr>todayUsage := u\<rparr>) = getLimitSeconds s"
  by (simp add: getLimitSeconds_def fun_eq_iff)

lemma getTrackedDomains_usage [simp]:
  "getTrackedDomains (s\<lparr>todayUsage := u\<rparr>) = getTrackedDomains s"
  by (simp add: getTrackedDomains_def)

lemma ruleId_blockRule [simp]: "ruleId (blockRule d) = ruleIdFor d"
  by (simp add: blockRule_def)

lemma blockRule_inj: "blockRule d = blockRule d' \<Longrightarrow> d = d'"
  by (simp add: blockRule_def)

text \<open>The loop of \<open>checkLimits\<close> touches the rule table only, so its test can be read off the state it starts from.\<close>

lemma checkLimits_loop:
  "fold (\<lambda>domain st. if reaches (usageOf st domain) (getLimitSeconds st domain)
                      then addDynamicBlockRule domain st else st) ds s
   = s\<lparr>dynamicRules :=
         fold replaceRule (filter (\<lambda>d. reaches (usageOf s d) (getLimitSeconds s d)) ds)
           (dynamicRules s)\<rparr>"
proof (induction ds arbitrary: s)
  case Nil
  then show ?case by simp
next
  case (Cons d ds)
  show ?case
    by (simp add: Cons.IH addDynamicBlockRule_def replaceRule_def)
qed

lemma checkLimits_rules:
  "checkLimits s = s\<lparr>dynamicRules := fold replaceRule (overLimit s) (dynamicRules s)\<rparr>"
  by (simp add: checkLimits_def checkLimits_loop overLimit_def)

lemma overLimit_rules [simp]: "overLimit (s\<lparr>dynamicRules := r\<rparr>) = overLimit s"
  by (simp add: overLimit_def)

text \<open>A pass keeps the rules whose ids it does not write, followed by what it writes into an empty table.\<close>

lemma fold_replaceRule:
  "fold replaceRule ds table =
     filter (\<lambda>r. ruleId r \<notin> ruleIdFor ` set ds) table @ fold replaceRule ds []"
proof (induction ds arbitrary: table rule: rev_induct)
  case Nil
  then show ?case by simp
next
  case (snoc d ds)
  have "fold replaceRule (ds @ [d]) table = replaceRule d (fold replaceRule ds table)"
    by simp
  also have "\<dots> = replaceRule d
      (filter (\<lambda>r. ruleId r \<notin> ruleIdFor ` set ds) table @ fold replaceRule ds [])"
    using snoc.IH [of table] by simp
  also have "\<dots> = filter (\<lambda>r. ruleId r \<notin> ruleIdFor ` set (ds @ [d])) table
      @ replaceRule d (fold replaceRule ds [])"
    by (auto simp: replaceRule_def updateDynamicRules_def intro: filter_cong)
  finally show ?case by simp
qed

lemma ids_replaceRule:
  "ruleId ` set (replaceRule d table) = insert (ruleIdFor d) (ruleId ` set table)"
  by (force simp: replaceRule_def updateDynamicRules_def)

lemma ids_fold_replaceRule:
  "ruleId ` set (fold replaceRule ds table) = ruleIdFor ` set ds \<union> ruleId ` set table"
  by (induction ds arbitrary: table) (auto simp: ids_replaceRule)

lemma fold_replaceRule_idem:
  "fold replaceRule ds (fold replaceRule ds table) = fold replaceRule ds table"
proof -
  have "filter (\<lambda>r. ruleId r \<notin> ruleIdFor ` set ds) (fold replaceRule ds []) = []"
    using ids_fold_replaceRule [of ds "[]"] by (auto simp: filter_empty_conv)
  then show ?thesis
    using fold_replaceRule [of ds "fold replaceRule ds table"] fold_replaceRule [of ds table]
    by simp
qed

lemma distinct_replaceRule:
  "distinct (map ruleId table) \<Longrightarrow> distinct (map ruleId (replaceRule d table))"
  by (auto simp: replaceRule_def updateDynamicRules_def distinct_map_filter)

lemma distinct_fold_replaceRule:
  "distinct (map ruleId table) \<Longrightarrow> distinct (map ruleId (fold replaceRule ds table))"
  by (induction ds arbitrary: table) (simp_all add: distinct_replaceRule)

lemma set_fold_replaceRule:
  "set (fold replaceRule ds table) \<subseteq> set table \<union> blockRule ` set ds"
proof (induction ds arbitrary: table)
  case Nil
  then show ?case by simp
next
  case (Cons d ds)
  have "set (replaceRule d table) \<subseteq> insert (blockRule d) (set table)"
    by (auto simp: replaceRule_def updateDynamicRules_def)
  with Cons.IH [of "replaceRule d table"] show ?case by auto
qed

text \<open>
  C7. A second reconciliation pass over the same settings and ledger leaves the state, and so
  the rule table with the order of its rules, as the first pass left it; and a table whose
  rule ids are pairwise different stays so.
\<close>

theorem checkLimits_idempotent:
  "checkLimits (checkLimits s) = checkLimits s \<and>
   (distinct (map ruleId (dynamicRules s)) \<longrightarrow>
      distinct (map ruleId (dynamicRules (checkLimits s))))"
  by (simp add: checkLimits_rules fold_replaceRule_idem distinct_fold_replaceRule)

theorem checkLimits_idempotent_witness:
  "distinct (map ruleId (dynamicRules orphanState)) \<and>
   checkLimits (checkLimits orphanState) = checkLimits orphanState \<and>
   distinct (map ruleId (dynamicRules (checkLimits orphanState)))"
  using checkLimits_idempotent [of orphanState]
  by (simp add: orphanState_def initialState_def)

lemma untracked_limit:
  "domain \<notin> set (getTrackedDomains s) \<Longrightarrow> getLimitSeconds s domain = Infinity"
proof (cases "restrictedDomains (settings s)")
  case None
  then show ?thesis by (simp add: getLimitSeconds_def)
next
  case (Some al)
  assume "domain \<notin> set (getTrackedDomains s)"
  with Some have "map_of al domain = None"
    by (simp add: getTrackedDomains_def map_of_eq_None_iff)
  with Some show ?thesis by (simp add: getLimitSeconds_def)
qed

lemma overLimit_orphan:
  "domain \<notin> set (getTrackedDomains s) \<Longrightarrow>
     overLimit (s\<lparr>todayUsage := (todayUsage s)(domain \<mapsto> v)\<rparr>) = overLimit s"
  unfolding overLimit_def
  by (auto intro!: filter_cong simp: usageOf_def)

text \<open>
  C10. For a domain that is not a key of the settings: its limit is infinite; whatever value
  its ledger entry is given, the pass leaves the same rule table; its block rule is in the
  table after the pass only if it was there before; and every rule of the table after the
  pass was there before or is the block rule of a tracked domain at its limit.
\<close>

theorem checkLimits_tracked_only:
  "domain \<notin> set (getTrackedDomains s) \<Longrightarrow>
     getLimitSeconds s domain = Infinity \<and>
     dynamicRules (checkLimits (s\<lparr>todayUsage := (todayUsage s)(domain \<mapsto> v)\<rparr>))
       = dynamicRules (checkLimits s) \<and>
     (blockRule domain \<in> set (dynamicRules (checkLimits s)) \<longrightarrow>
        blockRule domain \<in> set (dynamicRules s)) \<and>
     (\<forall>r \<in> set (dynamicRules (checkLimits s)).
        r \<in> set (dynamicRules s) \<or>
        (\<exists>d \<in> set (getTrackedDomains s).
           r = blockRule d \<and> reaches (usageOf s d) (getLimitSeconds s d)))"
proof (intro conjI)
  assume u: "domain \<notin> set (getTrackedDomains s)"
  show "getLimitSeconds s domain = Infinity"
    using u by (rule untracked_limit)
  show "dynamicRules (checkLimits (s\<lparr>todayUsage := (todayUsage s)(domain \<mapsto> v)\<rparr>))
          = dynamicRules (checkLimits s)"
    using overLimit_orphan [OF u] by (simp add: checkLimits_rules)
  have sub: "set (dynamicRules (checkLimits s))
               \<subseteq> set (dynamicRules s) \<union> blockRule ` set (overLimit s)"
    using set_fold_replaceRule [of "overLimit s" "dynamicRules s"]
    by (simp add: checkLimits_rules)
  show "blockRule domain \<in> set (dynamicRules (checkLimits s)) \<longrightarrow>
          blockRule domain \<in> set (dynamicRules s)"
    using sub u by (auto simp: overLimit_def dest: blockRule_inj)
  show "\<forall>r \<in> set (dynamicRules (checkLimits s)).
          r \<in> set (dynamicRules s) \<or>
          (\<exists>d \<in> set (getTrackedDomains s).
             r = blockRule d \<and> reaches (usageOf s d) (getLimitSeconds s d))"
    using sub by (auto simp: overLimit_def)
qed

theorem checkLimits_tracked_only_witness:
  "js ''instagram.com'' \<notin> set (getTrackedDomains orphanState) \<and>
   getLimitSeconds orphanState (js ''instagram.com'') = Infinity \<and>
   dynamicRules (checkLimits (orphanState
       \<lparr>todayUsage := (todayUsage orphanState)(js ''instagram.com'' \<mapsto> 5)\<rparr>))
     = dynamicRules (checkLimits orphanState) \<and>
   dynamicRules (checkLimits orphanState) = [blockRule (js ''youtube.com'')]"
proof -
  have u: "js ''instagram.com'' \<notin> set (getTrackedDomains orphanState)"
    by (simp add: getTrackedDomains_def orphanState_def exampleSettings_def
          initialState_def js_def)
  have r: "dynamicRules (checkLimits orphanState) = [blockRule (js ''youtube.com'')]"
    by (simp add: checkLimits_def getTrackedDomains_def orphanState_def exampleSettings_def
          initialState_def js_def reaches_def usageOf_def getLimitSeconds_def
          addDynamicBlockRule_def updateDynamicRules_def)
  show ?thesis
    using checkLimits_tracked_only [OF u, of 5] u r by simp
qed

section \<open>The dwell timer\<close>

text \<open>
  C6. A flush whose elapsed time rounds to zero or less leaves the whole state as it is, the
  ledger and the start instant included; a second flush at the same clock reading changes
  nothing after the first.
\<close>

theorem flushActiveTimer_nonpositive_noop:
  "(activeStart s = Some start \<longrightarrow> Math_round_div1000 (now - start) \<le> 0 \<longrightarrow>
      flushActiveTimer now s = s)
   \<and> flushActiveTimer now (flushActiveTimer now s) = flushActiveTimer now s"
  by (auto simp: flushActiveTimer_def Let_def truthy_num_def truthy_str_def
        Math_round_div1000_def split: option.splits)

theorem flushActiveTimer_nonpositive_noop_witness:
  "activeStart runningTimer = Some 1793577601000
   \<and> Math_round_div1000 (1793577601200 - 1793577601000) \<le> 0
   \<and> flushActiveTimer 1793577601200 runningTimer = runningTimer"
  using flushActiveTimer_nonpositive_noop [of runningTimer 1793577601000 1793577601200]
  by (simp add: Math_round_div1000_def runningTimer_def)

lemma checkLimits_fields [simp]:
  "settings (checkLimits s) = settings s"
  "todayUsage (checkLimits s) = todayUsage s"
  "activeDomain (checkLimits s) = activeDomain s"
  "activeStart (checkLimits s) = activeStart s"
  by (simp_all add: checkLimits_rules)

lemma flush_settled:
  "activeStart s = Some now \<or> activeDomain s = None \<Longrightarrow> flushActiveTimer now s = s"
  by (auto simp: flushActiveTimer_def truthy_str_def truthy_num_def Math_round_div1000_def)

lemma flush_idle: "activeDomain s = None \<Longrightarrow> flushActiveTimer now s = s"
  by (simp add: flushActiveTimer_def truthy_str_def)

lemma flush_settings [simp]: "settings (flushActiveTimer now s) = settings s"
  by (simp add: flushActiveTimer_def Let_def)

lemma flush_activeDomain [simp]: "activeDomain (flushActiveTimer now s) = activeDomain s"
  by (simp add: flushActiveTimer_def Let_def)

lemma getTrackedDomains_flush [simp]:
  "getTrackedDomains (flushActiveTimer now s) = getTrackedDomains s"
  by (simp add: getTrackedDomains_def)

text \<open>
  What a call of \<open>setActiveDomain\<close> leaves: the flush inside \<open>persistUsage\<close> finds a timer
  started at the same reading of the clock, or none, and reconciliation touches the rules only.
\<close>

lemma setActiveDomain_timer:
  "settings (setActiveDomain localDate now domain s) = settings s"
  "activeDomain (setActiveDomain localDate now domain s)
     = spec_activeAfter (getTrackedDomains s) domain"
  "activeStart (setActiveDomain localDate now domain s)
     = (if spec_activeAfter (getTrackedDomains s) domain = None then None else Some now)"
  "todayUsage (setActiveDomain localDate now domain s) = todayUsage (flushActiveTimer now s)"
  by (auto simp: setActiveDomain_def persistUsage_def Let_def flush_settled spec_activeAfter_def
        truthy_str_def split: option.splits)

lemma usageOf_setActiveDomain:
  "usageOf (setActiveDomain localDate now domain s) d = usageOf (flushActiveTimer now s) d"
  by (simp add: usageOf_def setActiveDomain_timer)

lemma getTrackedDomains_setActiveDomain [simp]:
  "getTrackedDomains (setActiveDomain localDate now domain s) = getTrackedDomains s"
  by (simp add: getTrackedDomains_def setActiveDomain_timer)

text \<open>
  A flush at or after the start of the timer books the elapsed time rounded to the nearest
  second: when that is zero the flush does nothing, which books zero.
\<close>

lemma flush_rounded:
  assumes "activeDomain s = Some a" "a \<noteq> []" "activeStart s = Some t0" "t0 \<noteq> 0"
    and "t0 \<le> now"
  shows "usageOf (flushActiveTimer now s) d
           = usageOf s d + (if a = d then Math_round_div1000 (now - t0) else 0)"
proof -
  have "0 \<le> Math_round_div1000 (now - t0)"
    using assms(5) by (simp add: Math_round_div1000_def pos_imp_zdiv_nonneg_iff)
  then show ?thesis
    using assms(1-4)
    by (auto simp: flushActiveTimer_def truthy_str_def truthy_num_def usageOf_def Let_def)
qed

lemma calls_rounded:
  "timerRunning since s \<Longrightarrow> sorted (since # map fst cs) \<Longrightarrow>
   \<forall>t \<in> set (map fst cs). 0 < t \<Longrightarrow>
   usageOf (calls localDate cs s) d
     = usageOf s d + spec_dwell_rounded (getTrackedDomains s) (activeDomain s) since cs d"
proof (induction cs arbitrary: s since)
  case Nil
  then show ?case by simp
next
  case (Cons c cs)
  obtain now domain where c: "c = (now, domain)"
    by (cases c)
  let ?s' = "setActiveDomain localDate now domain s"
  have now: "since \<le> now" "now \<noteq> 0"
    using Cons.prems c by auto
  have step: "usageOf ?s' d
                = usageOf s d
                  + (if activeDomain s = Some d then Math_round_div1000 (now - since) else 0)"
  proof (cases "activeDomain s")
    case None
    then show ?thesis
      by (simp add: usageOf_setActiveDomain flush_idle)
  next
    case (Some a)
    with Cons.prems(1)
    have t: "a \<noteq> []" "activeStart s = Some since" "since \<noteq> 0"
      by (simp_all add: timerRunning_def)
    show ?thesis
      using flush_rounded [OF Some t(1) t(2) t(3) now(1), of d] Some
      by (simp add: usageOf_setActiveDomain)
  qed
  have ok: "timerRunning now ?s'"
    using now
    by (auto simp: timerRunning_def setActiveDomain_timer spec_activeAfter_def truthy_str_def
          split: option.splits)
  have srt: "sorted (now # map fst cs)"
    using Cons.prems(2) c by simp
  have rest: "\<forall>t \<in> set (map fst cs). 0 < t"
    using Cons.prems(3) by simp
  show ?case
    using Cons.IH [OF ok srt rest] step c
    by (simp add: setActiveDomain_timer)
qed

text \<open>Between readings that are whole seconds apart the rounding is exact.\<close>

lemma round_whole_seconds:
  "now mod 1000 = since mod 1000 \<Longrightarrow> 1000 * Math_round_div1000 (now - since) = now - since"
proof -
  assume "now mod 1000 = since mod 1000"
  then have "(now - since) mod 1000 = 0"
    by (simp add: mod_eq_dvd_iff dvd_eq_mod_eq_0 [symmetric])
  then obtain k where k: "now - since = 1000 * k"
    by (auto simp: mod_eq_0_iff_dvd)
  show ?thesis
    by (simp add: Math_round_div1000_def k)
qed

lemma spec_dwell_rounded_whole_seconds:
  "\<forall>t \<in> set (map fst cs). t mod 1000 = r \<Longrightarrow> active = None \<or> since mod 1000 = r \<Longrightarrow>
   1000 * spec_dwell_rounded tracked active since cs d = spec_dwell tracked active since cs d"
proof (induction cs arbitrary: active since)
  case Nil
  then show ?case by simp
next
  case (Cons c cs)
  obtain now domain where c: "c = (now, domain)"
    by (cases c)
  have now: "now mod 1000 = r"
    using Cons.prems(1) c by simp
  have rest: "\<forall>t \<in> set (map fst cs). t mod 1000 = r"
    using Cons.prems(1) by simp
  have ih: "1000 * spec_dwell_rounded tracked (spec_activeAfter tracked domain) now cs d
              = spec_dwell tracked (spec_activeAfter tracked domain) now cs d"
    using Cons.IH [OF rest, of "spec_activeAfter tracked domain" now] now by simp
  show ?case
  proof (cases "active = Some d")
    case True
    with Cons.prems(2) have "now mod 1000 = since mod 1000"
      using now by simp
    then show ?thesis
      using True ih c by (simp add: round_whole_seconds distrib_left)
  next
    case False
    then show ?thesis
      using ih c by simp
  qed
qed

text \<open>
  C1, as stated, fails: with calls 1.4 seconds apart each flush books one second and restarts
  the timer, so that after 5.6 seconds on \<open>youtube.com\<close> the ledger holds 4 seconds.
\<close>

theorem setActiveDomain_rounding_loses_time:
  "activeDomain (initialState\<lparr>settings := exampleSettings\<rparr>) = None \<and>
   sorted (map fst everySecondAndAHalf) \<and>
   usageOf (calls utcDate everySecondAndAHalf (initialState\<lparr>settings := exampleSettings\<rparr>))
     (js ''youtube.com'') = 4 \<and>
   spec_dwell (getTrackedDomains (initialState\<lparr>settings := exampleSettings\<rparr>)) None 0
     everySecondAndAHalf (js ''youtube.com'') = 5600 \<and>
   1000 * usageOf (calls utcDate everySecondAndAHalf
       (initialState\<lparr>settings := exampleSettings\<rparr>)) (js ''youtube.com'')
     \<noteq> 1000 * usageOf (initialState\<lparr>settings := exampleSettings\<rparr>) (js ''youtube.com'')
       + spec_dwell (getTrackedDomains (initialState\<lparr>settings := exampleSettings\<rparr>)) None 0
           everySecondAndAHalf (js ''youtube.com'')"
  by code_simp

text \<open>
  C1, amended. From a state with no running timer, for every sequence of calls of
  \<open>setActiveDomain\<close> at non-decreasing, positive readings of the clock, the usage recorded
  for each domain has grown by exactly the sum, over the disjoint intervals between
  consecutive calls during which it was the active domain, of the length of the interval
  rounded to the nearest second: no interval is counted twice, and a flush boundary loses or
  gains the rounding of its interval only. If moreover the readings are whole seconds apart
  (all of them \<open>r\<close> milliseconds after a whole second), the usage has grown by exactly the
  sum of the lengths of these intervals.
\<close>

theorem setActiveDomain_books_rounded_intervals:
  assumes "activeDomain s = None"
    and "sorted (map fst cs)"
    and "\<forall>t \<in> set (map fst cs). 0 < t"
  shows "usageOf (calls localDate cs s) d
           = usageOf s d + spec_dwell_rounded (getTrackedDomains s) None 0 cs d
         \<and> ((\<forall>t \<in> set (map fst cs). t mod 1000 = r) \<longrightarrow>
              1000 * usageOf (calls localDate cs s) d
                = 1000 * usageOf s d + spec_dwell (getTrackedDomains s) None 0 cs d)"
proof -
  have ok: "timerRunning 0 s"
    using assms(1) by (simp add: timerRunning_def)
  have srt: "sorted (0 # map fst cs)"
    using assms(2) assms(3) by (auto intro: less_imp_le)
  have rounded: "usageOf (calls localDate cs s) d
                   = usageOf s d + spec_dwell_rounded (getTrackedDomains s) None 0 cs d"
    using calls_rounded [OF ok srt assms(3), of localDate d] assms(1) by simp
  have "1000 * usageOf (calls localDate cs s) d
          = 1000 * usageOf s d + spec_dwell (getTrackedDomains s) None 0 cs d"
    if "\<forall>t \<in> set (map fst cs). t mod 1000 = r"
    using rounded spec_dwell_rounded_whole_seconds [OF that, of None 0 "getTrackedDomains s" d]
    by (simp add: distrib_left)
  with rounded show ?thesis
    by blast
qed

theorem setActiveDomain_books_rounded_intervals_witness:
  "activeDomain (initialState\<lparr>settings := exampleSettings\<rparr>) = None \<and>
   sorted (map fst unevenCalls) \<and> list_all (\<lambda>t. 0 < t) (map fst unevenCalls) \<and>
   usageOf (calls utcDate unevenCalls (initialState\<lparr>settings := exampleSettings\<rparr>))
       (js ''youtube.com'')
     = usageOf (initialState\<lparr>settings := exampleSettings\<rparr>) (js ''youtube.com'')
       + spec_dwell_rounded (getTrackedDomains (initialState\<lparr>settings := exampleSettings\<rparr>))
           None 0 unevenCalls (js ''youtube.com'') \<and>
   spec_dwell_rounded (getTrackedDomains (initialState\<lparr>settings := exampleSettings\<rparr>))
     None 0 unevenCalls (js ''youtube.com'') = 1 \<and>
   sorted (map fst wholeSeconds) \<and>
   list_all (\<lambda>t. 0 < t \<and> t mod 1000 = 250) (map fst wholeSeconds) \<and>
   1000 * usageOf (calls utcDate wholeSeconds (initialState\<lparr>settings := exampleSettings\<rparr>))
       (js ''youtube.com'')
     = 1000 * usageOf (initialState\<lparr>settings := exampleSettings\<rparr>) (js ''youtube.com'')
       + spec_dwell (getTrackedDomains (initialState\<lparr>settings := exampleSettings\<rparr>)) None 0
           wholeSeconds (js ''youtube.com'') \<and>
   spec_dwell (getTrackedDomains (initialState\<lparr>settings := exampleSettings\<rparr>)) None 0
     wholeSeconds (js ''youtube.com'') = 6000"
proof -
  have a: "activeDomain (initialState\<lparr>settings := exampleSettings\<rparr>) = None"
    by (simp add: initialState_def)
  have b: "sorted (map fst unevenCalls)" "sorted (map fst wholeSeconds)"
    by (simp_all add: unevenCalls_def wholeSeconds_def)
  have c: "\<forall>t \<in> set (map fst unevenCalls). 0 < t" "\<forall>t \<in> set (map fst wholeSeconds). 0 < t"
    by (simp_all add: unevenCalls_def wholeSeconds_def)
  have m: "\<forall>t \<in> set (map fst wholeSeconds). t mod 1000 = 250"
    by (simp add: wholeSeconds_def)
  have d: "spec_dwell_rounded (getTrackedDomains (initialState\<lparr>settings := exampleSettings\<rparr>))
             None 0 unevenCalls (js ''youtube.com'') = 1"
    "spec_dwell (getTrackedDomains (initialState\<lparr>settings := exampleSettings\<rparr>)) None 0
       wholeSeconds (js ''youtube.com'') = 6000"
    by code_simp+
  show ?thesis
    using setActiveDomain_books_rounded_intervals
            [OF a b(1) c(1), of utcDate "js ''youtube.com''" 0]
          setActiveDomain_books_rounded_intervals
            [OF a b(2) c(2), of utcDate "js ''youtube.com''" 250]
          a b c m d
    by (simp add: list_all_iff)
qed

section \<open>Hydration and the persisted timer\<close>

text \<open>
  C2, as stated, fails: a timer persisted at 23:00 on 1 November is restored by a hydration
  at 01:00 on 2 November, and the next persistence tick books its two hours on the ledger of
  2 November.
\<close>

theorem ensureInit_keeps_timer_of_previous_day:
  "utcDate 1793574000000 \<noteq> utcDate 1793581200000 \<and>
   activeDomain (ensureInit utcDate 1793581200000 staleTimer) = Some (js ''reddit.com'') \<and>
   activeStart (ensureInit utcDate 1793581200000 staleTimer) = Some 1793574000000 \<and>
   usageOf (onAlarm utcDate 1793581200000 staleTimer) (js ''reddit.com'') = 7200"
  by code_simp

text \<open>
  C2, amended. Hydration restores the persisted snapshot of the timer as it was stored: a
  non-empty domain and a non-zero start instant become the running timer, whatever the
  calendar and whatever the instant of the hydration, hence also when the start instant
  belongs to a previous day.
\<close>

theorem ensureInit_restores_timer:
  "map_of (storageLocal s) (js ''activeDomain'') = Some (Str d) \<Longrightarrow> d \<noteq> [] \<Longrightarrow>
   map_of (storageLocal s) (js ''activeStart'') = Some (Num t) \<Longrightarrow> t \<noteq> 0 \<Longrightarrow>
   activeDomain (ensureInit localDate now s) = Some d \<and>
   activeStart (ensureInit localDate now s) = Some t"
  by (simp add: ensureInit_def Let_def)

theorem ensureInit_restores_timer_witness:
  "map_of (storageLocal staleTimer) (js ''activeDomain'') = Some (Str (js ''reddit.com'')) \<and>
   map_of (storageLocal staleTimer) (js ''activeStart'') = Some (Num 1793574000000) \<and>
   activeDomain (ensureInit utcDate 1793575800000 staleTimer) = Some (js ''reddit.com'') \<and>
   activeStart (ensureInit utcDate 1793575800000 staleTimer) = Some 1793574000000"
proof -
  have a: "map_of (storageLocal staleTimer) (js ''activeDomain'') = Some (Str (js ''reddit.com''))"
    by (simp add: staleTimer_def initialState_def js_def)
  have b: "map_of (storageLocal staleTimer) (js ''activeStart'') = Some (Num 1793574000000)"
    by (simp add: staleTimer_def initialState_def js_def)
  have c: "js ''reddit.com'' \<noteq> []"
    by (simp add: js_def)
  show ?thesis
    using ensureInit_restores_timer [OF a c b, of utcDate 1793575800000] a b by simp
qed

section \<open>Live synchronisation of the settings\<close>

text \<open>
  C3 at the input where the code departs from it. The listener hydrates first, which loads
  the settings the change has already written to the synced store; the domains it then
  takes for the old ones are the new ones, no rule is removed, and \<open>instagram.com\<close> stays
  blocked, its entry still in the ledger.
\<close>

theorem onStorageChanged_keeps_block_of_removed_domain:
  "dynamicRules (onStorageChanged utcDate 1793577630000 (Some instagramChange) (js ''sync'')
       instagramRemoved) = [blockRule (js ''instagram.com'')] \<and>
   getTrackedDomains (onStorageChanged utcDate 1793577630000 (Some instagramChange) (js ''sync'')
       instagramRemoved) = [js ''youtube.com''] \<and>
   usageOf (onStorageChanged utcDate 1793577630000 (Some instagramChange) (js ''sync'')
       instagramRemoved) (js ''instagram.com'') = 900"
  by code_simp

section \<open>Day rollover\<close>

text \<open>The listeners of installation and of start-up do clear the table before they reconcile.\<close>

lemma removeAllDynamicBlockRules_empties:
  "dynamicRules (removeAllDynamicBlockRules s) = []"
  by (simp add: removeAllDynamicBlockRules_def updateDynamicRules_def Let_def filter_empty_conv)

lemma overLimit_cong:
  "settings s = settings s' \<Longrightarrow> todayUsage s = todayUsage s' \<Longrightarrow> overLimit s = overLimit s'"
  by (simp add: overLimit_def usageOf_def getLimitSeconds_def getTrackedDomains_def)

lemma onStartup_rules:
  "set (dynamicRules (onStartup localDate parseDate daysBack now s))
     \<subseteq> blockRule ` set (overLimit (ensureInit localDate now s))"
proof -
  let ?s1 = "cleanupOldUsage parseDate daysBack now (ensureInit localDate now s)"
  have t: "overLimit (removeAllDynamicBlockRules ?s1) = overLimit (ensureInit localDate now s)"
    by (rule overLimit_cong)
       (simp_all add: removeAllDynamicBlockRules_def cleanupOldUsage_def Let_def)
  have "set (dynamicRules (checkLimits (removeAllDynamicBlockRules ?s1)))
          \<subseteq> blockRule ` set (overLimit (removeAllDynamicBlockRules ?s1))"
    using set_fold_replaceRule
      [of "overLimit (removeAllDynamicBlockRules ?s1)"
          "dynamicRules (removeAllDynamicBlockRules ?s1)"]
    by (simp add: checkLimits_rules removeAllDynamicBlockRules_empties)
  then show ?thesis
    by (simp add: onStartup_def t)
qed

text \<open>
  C5 at the input where the code departs from it. The first event of 2 November is the
  persistence alarm, at 00:00:30: the ledger in effect is the empty one of the new day,
  and the block of \<open>youtube.com\<close> from 1 November is still in the rule table, since only the
  listeners of installation and of browser start-up clear the table.
\<close>

theorem onAlarm_keeps_block_of_previous_day:
  "utcDate 1793577570000 \<noteq> utcDate 1793577630000 \<and>
   usageOf (onAlarm utcDate 1793577630000 blockedYesterday) (js ''youtube.com'') = 0 \<and>
   dynamicRules (onAlarm utcDate 1793577630000 blockedYesterday)
     = [blockRule (js ''youtube.com'')]"
  by code_simp

section \<open>Retention sweep\<close>

lemma keyIsOld_2020:
  "keyIsOld parseDate cutoff (js ''usage_2020_11_01'') =
     (case parseDate (js ''11-01-undefined'') of None \<Rightarrow> False | Some d \<Rightarrow> d < cutoff)"
  by (simp add: keyIsOld_def startsWith_def split_str_def at_index_def template_def js_def)

lemma keyIsOld_2026:
  "keyIsOld parseDate cutoff (js ''usage_2026_11_01'') =
     (case parseDate (js ''11-01-undefined'') of None \<Rightarrow> False | Some d \<Rightarrow> d < cutoff)"
  by (simp add: keyIsOld_def startsWith_def split_str_def at_index_def template_def js_def)

text \<open>
  C4 at the input where the code departs from it. The sweep reads the fields 1, 2 and 3 of
  the three parts of a key, so the year is dropped and the last field is \<open>undefined\<close>: for
  the ledgers of 1 November 2020 and of 1 November 2026 it parses the same text,
  \<open>11-01-undefined\<close>, and whatever the date parser and the current date, it deletes both
  or neither.
\<close>

theorem cleanupOldUsage_ignores_year:
  "(map_of (storageLocal (cleanupOldUsage parseDate daysBack now twoLedgers))
      (js ''usage_2020_11_01'') = None)
   = (map_of (storageLocal (cleanupOldUsage parseDate daysBack now twoLedgers))
      (js ''usage_2026_11_01'') = None)"
proof -
  define cutoff where "cutoff = daysBack now USAGE_RETENTION_DAYS"
  define b where
    "b = (case parseDate (js ''11-01-undefined'') of None \<Rightarrow> False | Some d \<Rightarrow> d < cutoff)"
  have k: "keyIsOld parseDate cutoff (js ''usage_2020_11_01'') = b"
    "keyIsOld parseDate cutoff (js ''usage_2026_11_01'') = b"
    by (simp_all add: keyIsOld_2020 keyIsOld_2026 b_def)
  have ne: "js ''usage_2020_11_01'' \<noteq> js ''usage_2026_11_01''"
    by (simp add: js_def)
  show ?thesis
  proof (cases b)
    case True
    with k ne show ?thesis
      by (simp add: cleanupOldUsage_def Let_def twoLedgers_def initialState_def
            storage_remove_def cutoff_def [symmetric])
  next
    case False
    with k ne show ?thesis
      by (simp add: cleanupOldUsage_def Let_def twoLedgers_def initialState_def
            storage_remove_def cutoff_def [symmetric])
  qed
qed

text \<open>Where the parser answers an invalid date for that text, as V8 does, nothing is deleted.\<close>

lemma cleanupOldUsage_invalid_date:
  "parseDate (js ''11-01-undefined'') = None \<Longrightarrow>
     cleanupOldUsage parseDate daysBack now twoLedgers = twoLedgers"
  by (simp add: cleanupOldUsage_def Let_def twoLedgers_def initialState_def
        keyIsOld_2020 keyIsOld_2026)

section \<open>Domain classifier\<close>

lemma getDomain_unparsable: "parseURL url = None \<Longrightarrow> getDomain parseURL url = None"
  by (simp add: getDomain_def)

lemma strip_www_once: "strip_www (js ''www.'' @ h) = h"
  by (simp add: strip_www_def startsWith_def js_def)

text \<open>
  C9 at the input where the code departs from it. \<open>getDomain\<close> never looks at the scheme:
  every address that the URL parser accepts yields its host name, so the address of an
  internal page such as \<open>chrome://extensions/\<close>, which the parser accepts with the host
  name \<open>extensions\<close>, is classified as the domain \<open>extensions\<close> and not as none.
\<close>

theorem getDomain_ignores_scheme:
  "parseURL url = Some u \<Longrightarrow> getDomain parseURL url = Some (strip_www (hostname u))"
  by (simp add: getDomain_def)

theorem getDomain_ignores_scheme_witness:
  "getDomain
     [js ''chrome://extensions/'' \<mapsto> \<lparr> protocol = js ''chrome:'', hostname = js ''extensions'' \<rparr>]
     (js ''chrome://extensions/'') = Some (js ''extensions'')"
  using getDomain_ignores_scheme
    [of "[js ''chrome://extensions/'' \<mapsto>
           \<lparr> protocol = js ''chrome:'', hostname = js ''extensions'' \<rparr>]"
        "js ''chrome://extensions/''"
        "\<lparr> protocol = js ''chrome:'', hostname = js ''extensions'' \<rparr>"]
  by (simp add: strip_www_def startsWith_def js_def)

end
